theory Spec2Isabelle
  imports Complex_Main "HOL-Library.Word"
begin

section \<open>The conversation state of the NCS chat page\<close>

text \<open>
  The development embeds \<^verbatim>\<open>src/frontend/src/app/page.tsx\<close>: the \<^verbatim>\<open>Message\<close> and
  \<^verbatim>\<open>Source\<close> interfaces, the three state variables of \<^verbatim>\<open>NCSChatbot\<close> and the
  asynchronous handler \<^verbatim>\<open>handleSubmit\<close>, split at its single \<^verbatim>\<open>await\<close> point into the
  part that runs when the form is submitted and the part that runs when \<^verbatim>\<open>fetch\<close> settles.
\<close>

subsection \<open>Strings and parsed JSON values\<close>

text \<open>
  A JavaScript string is a sequence of 16-bit code units. \<open>lit\<close> turns an ASCII literal of
  the source into that representation.
\<close>

type_synonym jsstring = "16 word list"

definition lit :: "string \<Rightarrow> jsstring" where
  "lit cs = map of_char cs"

text \<open>
  The code units that \<^verbatim>\<open>String.prototype.trim\<close> strips: the WhiteSpace and LineTerminator
  productions of ECMAScript (TAB, LF, VT, FF, CR, SP, NBSP, U+1680, U+2000 to U+200A,
  U+2028, U+2029, U+202F, U+205F, U+3000, U+FEFF).
\<close>

definition isWhiteSpace :: "16 word \<Rightarrow> bool" where
  "isWhiteSpace c \<longleftrightarrow>
     c \<in> set [0x9, 0xA, 0xB, 0xC, 0xD, 0x20, 0xA0, 0x1680,
               0x2000, 0x2001, 0x2002, 0x2003, 0x2004, 0x2005, 0x2006, 0x2007, 0x2008, 0x2009, 0x200A,
               0x2028, 0x2029, 0x202F, 0x205F, 0x3000, 0xFEFF]"

definition trim :: "jsstring \<Rightarrow> jsstring" where
  "trim s = rev (dropWhile isWhiteSpace (rev (dropWhile isWhiteSpace s)))"

text \<open>
  The number held by a parsed JSON number literal: a finite double is a rational, and a
  literal beyond the double range parses to an infinity.
\<close>

datatype jsnumber = Finite rat | PosInfinity | NegInfinity

text \<open>
  The values \<^verbatim>\<open>response.json()\<close> can produce, and \<^verbatim>\<open>undefined\<close>, which reading a missing
  property produces. An object is the list of its own properties.
\<close>

datatype jsval =
    JUndefined
  | JNull
  | JBool bool
  | JNum jsnumber
  | JStr jsstring
  | JArr "jsval list"
  | JObj "(jsstring \<times> jsval) list"

text \<open>Truthiness, as \<^verbatim>\<open>||\<close> tests it.\<close>

fun truthy :: "jsval \<Rightarrow> bool" where
  "truthy JUndefined = False"
| "truthy JNull = False"
| "truthy (JBool b) = b"
| "truthy (JNum n) = (n \<noteq> Finite 0)"
| "truthy (JStr s) = (s \<noteq> [])"
| "truthy (JArr xs) = True"
| "truthy (JObj kvs) = True"

text \<open>What a statement of \<^verbatim>\<open>handleSubmit\<close>'s \<^verbatim>\<open>try\<close> block can throw.\<close>

datatype exn = FetchRejected | HttpError nat | JsonParseError | TypeError

text \<open>
  The property read \<^verbatim>\<open>v.k\<close>, for the four names the handler reads (\<^verbatim>\<open>sources\<close>,
  \<^verbatim>\<open>answer\<close>, \<^verbatim>\<open>source_text_preview\<close>, \<^verbatim>\<open>metadata\<close>): it throws on \<^verbatim>\<open>undefined\<close> and
  \<^verbatim>\<open>null\<close>, looks an object's own property up (the keys of a parsed object are distinct), and is \<^verbatim>\<open>undefined\<close> on every other value,
  none of whose prototypes defines one of these names.
\<close>

fun get_prop :: "jsval \<Rightarrow> jsstring \<Rightarrow> exn + jsval" where
  "get_prop JUndefined k = Inl TypeError"
| "get_prop JNull k = Inl TypeError"
| "get_prop (JObj kvs) k = Inr (case map_of kvs k of None \<Rightarrow> JUndefined | Some v \<Rightarrow> v)"
| "get_prop v k = Inr JUndefined"

subsection \<open>Messages and the page state\<close>

datatype role = User | Assistant

text \<open>
  \<^verbatim>\<open>interface Source\<close>. The field \<^verbatim>\<open>text\<close> is \<open>text_s\<close> here; both fields hold whatever the
  backend item held, \<^verbatim>\<open>undefined\<close> included.
\<close>

record source =
  text_s :: jsval
  metadata :: jsval

text \<open>
  \<^verbatim>\<open>interface Message\<close>. An optional field that the object literal leaves out is \<open>None\<close>.
  \<open>content\<close> is a \<open>jsval\<close> because the handler stores \<^verbatim>\<open>data.answer\<close> unconverted. The
  message's \<^verbatim>\<open>isLoading\<close> field is \<open>isLoading_m\<close>, the state variable of the same name keeps
  the name \<open>isLoading\<close>.
\<close>

record message =
  role :: role
  content :: jsval
  sources :: "source list option"
  isLoading_m :: "bool option"
  error :: "bool option"

text \<open>
  The state of \<^verbatim>\<open>NCSChatbot\<close>: its three \<^verbatim>\<open>useState\<close> variables, and \<open>outstanding\<close>, the
  queries of the \<^verbatim>\<open>fetch\<close> calls that were issued and have not settled yet (each one stands
  for a suspended invocation of \<^verbatim>\<open>handleSubmit\<close>, which captured that query as
  \<^verbatim>\<open>userMessage\<close>). The handler reads \<^verbatim>\<open>input\<close> and \<^verbatim>\<open>isLoading\<close> of the latest render,
  React rendering between two events.
\<close>

record state =
  messages :: "message list"
  input :: jsstring
  isLoading :: bool
  outstanding :: "jsstring list"

definition welcomeMsg :: "message" where
  "welcomeMsg = \<lparr>role = Assistant,
     content = JStr (lit ''Welcome, Officer. I am your instant knowledge assistant. Ask me about tariffs, prohibited items, or the NCS Act.''),
     sources = None, isLoading_m = None, error = None\<rparr>"

definition initial :: "state" where
  "initial = \<lparr>messages = [welcomeMsg], input = [], isLoading = False, outstanding = []\<rparr>"

text \<open>\<^verbatim>\<open>onChange={(e) => setInput(e.target.value)}\<close>\<close>

definition onChange :: "jsstring \<Rightarrow> state \<Rightarrow> state" where
  "onChange v s = s\<lparr>input := v\<rparr>"

subsection \<open>\<^verbatim>\<open>handleSubmit\<close> up to the \<^verbatim>\<open>await\<close>\<close>

definition userMsg :: "jsstring \<Rightarrow> message" where
  "userMsg userMessage =
     \<lparr>role = User, content = JStr userMessage, sources = None, isLoading_m = None, error = None\<rparr>"

definition loadingMsg :: "message" where
  "loadingMsg =
     \<lparr>role = Assistant, content = JStr [], sources = None, isLoading_m = Some True, error = None\<rparr>"

text \<open>
  Lines 47 to 68: the guard, the two appends, the flag, and the call of \<^verbatim>\<open>fetch\<close> with the
  trimmed text as the query.
\<close>

definition handleSubmit_begin :: "state \<Rightarrow> state" where
  "handleSubmit_begin s =
     (if trim (input s) = [] \<or> isLoading s then s
      else
        let userMessage = trim (input s) in
        s\<lparr>input := [],
          messages := (messages s @ [userMsg userMessage]) @ [loadingMsg],
          isLoading := True,
          outstanding := outstanding s @ [userMessage]\<rparr>)"

subsection \<open>\<^verbatim>\<open>handleSubmit\<close> after \<^verbatim>\<open>fetch\<close> settles\<close>

text \<open>
  What \<^verbatim>\<open>fetch\<close> delivers: a rejection, or a response with its status and its body, \<open>None\<close>
  when the body does not parse as JSON (\<^verbatim>\<open>response.json()\<close> rejects).
\<close>

record response =
  status :: nat
  body :: "jsval option"

datatype fetch_outcome = Rejected | Fulfilled response

text \<open>\<^verbatim>\<open>response.ok\<close>: the status is in the range 200 to 299.\<close>

definition ok :: "response \<Rightarrow> bool" where
  "ok r \<longleftrightarrow> 200 \<le> status r \<and> status r \<le> 299"

text \<open>
  The callback of line 78, \<^verbatim>\<open>(s) => ({text: s.source_text_preview, metadata: s.metadata})\<close>.
\<close>

definition transformSource :: "jsval \<Rightarrow> exn + source" where
  "transformSource s =
     (case get_prop s (lit ''source_text_preview'') of
        Inl e \<Rightarrow> Inl e
      | Inr t \<Rightarrow>
          (case get_prop s (lit ''metadata'') of
             Inl e \<Rightarrow> Inl e
           | Inr m \<Rightarrow> Inr \<lparr>text_s = t, metadata = m\<rparr>))"

text \<open>\<^verbatim>\<open>Array.prototype.map\<close> with a callback that may throw: the first throw ends it.\<close>

fun mapM :: "('a \<Rightarrow> exn + 'b) \<Rightarrow> 'a list \<Rightarrow> exn + 'b list" where
  "mapM f [] = Inr []"
| "mapM f (x # xs) =
     (case f x of
        Inl e \<Rightarrow> Inl e
      | Inr y \<Rightarrow> (case mapM f xs of Inl e \<Rightarrow> Inl e | Inr ys \<Rightarrow> Inr (y # ys)))"

text \<open>
  Lines 78 to 81, \<^verbatim>\<open>(data.sources || []).map(...)\<close>. A truthy \<^verbatim>\<open>data.sources\<close> that is not
  an array has no callable \<^verbatim>\<open>map\<close>, and the call throws.
\<close>

definition transformedSources :: "jsval \<Rightarrow> exn + source list" where
  "transformedSources data =
     (case get_prop data (lit ''sources'') of
        Inl e \<Rightarrow> Inl e
      | Inr v \<Rightarrow>
          (case (if truthy v then v else JArr []) of
             JArr items \<Rightarrow> mapM transformSource items
           | _ \<Rightarrow> Inl TypeError))"

definition fallbackText :: "jsstring" where
  "fallbackText = lit ''I apologize, but I could not generate a response.''"

definition errorText :: "jsstring" where
  "errorText = lit ''I apologize, but I encountered an error connecting to the knowledge base. Please ensure the backend service is running and try again.''"

text \<open>The object literal of lines 88 to 92.\<close>

definition answerMsg :: "jsval \<Rightarrow> source list \<Rightarrow> message" where
  "answerMsg a ts =
     \<lparr>role = Assistant, content = (if truthy a then a else JStr fallbackText),
      sources = Some ts, isLoading_m = None, error = None\<rparr>"

text \<open>The object literal of lines 103 to 108.\<close>

definition errorMsg :: "message" where
  "errorMsg =
     \<lparr>role = Assistant, content = JStr errorText, sources = None, isLoading_m = None,
      error = Some True\<rparr>"

text \<open>
  The \<^verbatim>\<open>try\<close> block from the point where \<^verbatim>\<open>fetch\<close> settles (lines 70 to 94), on the
  messages \<open>prev\<close>: \<open>Inl\<close> is a throw, which leaves the messages as they were, \<open>Inr\<close> the
  messages after the updater of line 84. \<^verbatim>\<open>prev.slice(0, -1)\<close> is \<open>butlast prev\<close>.
\<close>

definition tryBlock :: "fetch_outcome \<Rightarrow> message list \<Rightarrow> exn + message list" where
  "tryBlock outcome prev =
     (case outcome of
        Rejected \<Rightarrow> Inl FetchRejected
      | Fulfilled response \<Rightarrow>
          if \<not> ok response then Inl (HttpError (status response))
          else
            (case body response of
               None \<Rightarrow> Inl JsonParseError
             | Some data \<Rightarrow>
                 (case transformedSources data of
                    Inl e \<Rightarrow> Inl e
                  | Inr ts \<Rightarrow>
                      (case get_prop data (lit ''answer'') of
                         Inl e \<Rightarrow> Inl e
                       | Inr a \<Rightarrow> Inr (butlast prev @ [answerMsg a ts])))))"

text \<open>The updater of the \<^verbatim>\<open>catch\<close> block (lines 99 to 110).\<close>

definition catchBlock :: "message list \<Rightarrow> message list" where
  "catchBlock prev = butlast prev @ [errorMsg]"

text \<open>
  The rest of the invocation of \<^verbatim>\<open>handleSubmit\<close> that issued the query \<open>q\<close>, run when its
  \<^verbatim>\<open>fetch\<close> settles with \<open>outcome\<close>: \<^verbatim>\<open>try\<close>, \<^verbatim>\<open>catch\<close> on a throw, and \<^verbatim>\<open>finally\<close>.
\<close>

definition handleSubmit_settle :: "jsstring \<Rightarrow> fetch_outcome \<Rightarrow> state \<Rightarrow> state" where
  "handleSubmit_settle q outcome s =
     (let ms = (case tryBlock outcome (messages s) of
                  Inr ms' \<Rightarrow> ms'
                | Inl e \<Rightarrow> catchBlock (messages s))
      in s\<lparr>messages := ms, isLoading := False, outstanding := remove1 q (outstanding s)\<rparr>)"

subsection \<open>Reachable states\<close>

text \<open>
  The states the page can be in: the initial one, and the ones its three events lead to.
  A request settles only while it is outstanding; how it settles is up to the network and
  the backend.
\<close>

inductive reachable :: "state \<Rightarrow> bool" where
  init: "reachable initial"
| change: "reachable s \<Longrightarrow> reachable (onChange v s)"
| submit: "reachable s \<Longrightarrow> reachable (handleSubmit_begin s)"
| settle: "reachable s \<Longrightarrow> q \<in> set (outstanding s) \<Longrightarrow> reachable (handleSubmit_settle q outcome s)"

text \<open>
  A message counts as loading when its \<^verbatim>\<open>isLoading\<close> field is true, the test of
  \<^verbatim>\<open>ChatMessage\<close> (\<^verbatim>\<open>if (message.isLoading)\<close>).
\<close>

definition loading :: "message \<Rightarrow> bool" where
  "loading m \<longleftrightarrow> isLoading_m m = Some True"

section \<open>Properties\<close>

subsection \<open>The two halves of the handler, case by case\<close>

lemma begin_accepted:
  assumes "trim (input s) \<noteq> []" and "\<not> isLoading s"
  shows "handleSubmit_begin s =
           s\<lparr>input := [],
             messages := messages s @ [userMsg (trim (input s)), loadingMsg],
             isLoading := True,
             outstanding := outstanding s @ [trim (input s)]\<rparr>"
  using assms by (simp add: handleSubmit_begin_def Let_def)

lemma begin_rejected:
  assumes "trim (input s) = [] \<or> isLoading s"
  shows "handleSubmit_begin s = s"
  using assms by (auto simp add: handleSubmit_begin_def)

lemma tryBlock_cases:
  "(\<exists>e. tryBlock outcome prev = Inl e) \<or> (\<exists>a ts. tryBlock outcome prev = Inr (butlast prev @ [answerMsg a ts]))"
  by (auto simp add: tryBlock_def split: fetch_outcome.splits option.splits sum.splits)

lemma settle_thrown:
  assumes "tryBlock outcome (messages s) = Inl e"
  shows "handleSubmit_settle q outcome s =
           s\<lparr>messages := butlast (messages s) @ [errorMsg], isLoading := False,
             outstanding := remove1 q (outstanding s)\<rparr>"
  using assms by (simp add: handleSubmit_settle_def catchBlock_def)

lemma settle_returned:
  assumes "tryBlock outcome (messages s) = Inr ms"
  shows "handleSubmit_settle q outcome s =
           s\<lparr>messages := ms, isLoading := False, outstanding := remove1 q (outstanding s)\<rparr>"
  using assms by (simp add: handleSubmit_settle_def)

lemma settle_messages:
  "messages (handleSubmit_settle q outcome s) = butlast (messages s) @ [errorMsg] \<or>
   (\<exists>a ts. messages (handleSubmit_settle q outcome s) = butlast (messages s) @ [answerMsg a ts])"
proof -
  consider e where "tryBlock outcome (messages s) = Inl e"
    | a ts where "tryBlock outcome (messages s) = Inr (butlast (messages s) @ [answerMsg a ts])"
    using tryBlock_cases [of outcome "messages s"] by blast
  then show ?thesis
  proof cases
    case 1
    then show ?thesis by (simp add: settle_thrown)
  next
    case 2
    then have "messages (handleSubmit_settle q outcome s) = butlast (messages s) @ [answerMsg a ts]"
      by (simp add: settle_returned)
    then show ?thesis by blast
  qed
qed

lemma transformedSources_answer:
  assumes "transformedSources data = Inr ts"
  shows "\<exists>a. get_prop data (lit ''answer'') = Inr a"
  using assms by (cases data) (simp_all add: transformedSources_def)

lemma tryBlock_success:
  assumes "ok r" and "body r = Some data" and "transformedSources data = Inr ts"
    and "get_prop data (lit ''answer'') = Inr a"
  shows "tryBlock (Fulfilled r) prev = Inr (butlast prev @ [answerMsg a ts])"
  using assms by (simp add: tryBlock_def)

lemma tryBlock_failure:
  assumes "outcome = Rejected \<or> (\<exists>r. outcome = Fulfilled r \<and> (\<not> ok r \<or> body r = None))"
  shows "\<exists>e. tryBlock outcome prev = Inl e"
  using assms by (auto simp add: tryBlock_def)

subsection \<open>Invariants of the reachable states\<close>

text \<open>
  The flag is set exactly while a request is outstanding, and there is never more than one.
\<close>

lemma flag_inv:
  assumes "reachable s"
  shows "(isLoading s \<longleftrightarrow> outstanding s \<noteq> []) \<and> length (outstanding s) \<le> 1"
  using assms
proof (induction rule: reachable.induct)
  case init
  show ?case by (simp add: initial_def)
next
  case (change s v)
  then show ?case by (simp add: onChange_def)
next
  case (submit s)
  show ?case
  proof (cases "trim (input s) = [] \<or> isLoading s")
    case True
    with submit.IH show ?thesis by (simp add: begin_rejected)
  next
    case False
    with submit.IH show ?thesis by (simp add: begin_accepted)
  qed
next
  case (settle s q outcome)
  from settle.IH settle.hyps(2) have "outstanding s = [q]"
    by (cases "outstanding s") auto
  then show ?case by (simp add: handleSubmit_settle_def Let_def)
qed

text \<open>Which of the five message shapes is loading.\<close>

lemma not_loading_final [simp]:
  "\<not> loading errorMsg" "\<not> loading (answerMsg a ts)" "\<not> loading (userMsg t)" "\<not> loading welcomeMsg"
  "loading loadingMsg"
  by (simp_all add: loading_def errorMsg_def answerMsg_def userMsg_def welcomeMsg_def loadingMsg_def)

text \<open>
  With no request outstanding no message is loading; with one, the placeholder is the last
  message and no other message is loading.
\<close>

lemma placeholder_inv:
  assumes "reachable s"
  shows "if outstanding s = [] then \<forall>m\<in>set (messages s). \<not> loading m
         else \<exists>ms. messages s = ms @ [loadingMsg] \<and> (\<forall>m\<in>set ms. \<not> loading m)"
  using assms
proof (induction rule: reachable.induct)
  case init
  show ?case by (simp add: initial_def)
next
  case (change s v)
  then show ?case by (simp add: onChange_def)
next
  case (submit s)
  show ?case
  proof (cases "trim (input s) = [] \<or> isLoading s")
    case True
    with submit.IH show ?thesis by (simp add: begin_rejected)
  next
    case False
    with flag_inv [OF submit.hyps] have "outstanding s = []" by simp
    with submit.IH False show ?thesis by (simp add: begin_accepted)
  qed
next
  case (settle s q outcome)
  from flag_inv [OF settle.hyps(1)] settle.hyps(2) have out: "outstanding s = [q]"
    by (cases "outstanding s") auto
  with settle.IH obtain ms where ms: "messages s = ms @ [loadingMsg]" "\<forall>m\<in>set ms. \<not> loading m"
    by auto
  have "outstanding (handleSubmit_settle q outcome s) = []"
    using out by (simp add: handleSubmit_settle_def Let_def)
  moreover have "\<forall>m\<in>set (messages (handleSubmit_settle q outcome s)). \<not> loading m"
    using settle_messages [of q outcome s] ms by auto
  ultimately show ?case by simp
qed

text \<open>Every message of a reachable state was built by one of the five object literals.\<close>

lemma shape_inv:
  assumes "reachable s" and "m \<in> set (messages s)"
  shows "m = welcomeMsg \<or> (\<exists>t. t \<noteq> [] \<and> m = userMsg t) \<or> m = loadingMsg \<or> m = errorMsg \<or>
         (\<exists>a ts. m = answerMsg a ts)"
  using assms
proof (induction arbitrary: m rule: reachable.induct)
  case init
  then show ?case by (simp add: initial_def)
next
  case (change s v)
  then show ?case by (simp add: onChange_def)
next
  case (submit s)
  show ?case
  proof (cases "trim (input s) = [] \<or> isLoading s")
    case True
    with submit show ?thesis by (simp add: begin_rejected)
  next
    case False
    with submit.prems have "m \<in> set (messages s) \<or> m = userMsg (trim (input s)) \<or> m = loadingMsg"
      by (auto simp add: begin_accepted)
    with submit.IH False show ?thesis by blast
  qed
next
  case (settle s q outcome)
  from settle_messages [of q outcome s]
  show ?case
  proof
    assume "messages (handleSubmit_settle q outcome s) = butlast (messages s) @ [errorMsg]"
    with settle.prems have "m \<in> set (butlast (messages s)) \<or> m = errorMsg" by auto
    with settle.IH show ?thesis by (blast dest: in_set_butlastD)
  next
    assume "\<exists>a ts. messages (handleSubmit_settle q outcome s) = butlast (messages s) @ [answerMsg a ts]"
    then obtain a ts where
      "messages (handleSubmit_settle q outcome s) = butlast (messages s) @ [answerMsg a ts]"
      by blast
    with settle.prems have "m \<in> set (butlast (messages s)) \<or> m = answerMsg a ts" by auto
    with settle.IH show ?thesis by (blast dest: in_set_butlastD)
  qed
qed

subsection \<open>Submitting\<close>

text \<open>
  C3. When the trimmed input is not empty and no request is in flight, the submit appends
  exactly two messages: the user message whose content is the trimmed input, then the
  assistant placeholder with \<^verbatim>\<open>isLoading\<close> true and empty content.
\<close>

theorem submit_appends_user_and_placeholder:
  assumes "trim (input s) \<noteq> []" and "\<not> isLoading s"
  shows "messages (handleSubmit_begin s) =
           messages s @
             [\<lparr>role = User, content = JStr (trim (input s)), sources = None,
               isLoading_m = None, error = None\<rparr>,
              \<lparr>role = Assistant, content = JStr [], sources = None,
               isLoading_m = Some True, error = None\<rparr>] \<and>
         length (messages (handleSubmit_begin s)) = length (messages s) + 2"
  using assms by (simp add: begin_accepted userMsg_def loadingMsg_def)

theorem submit_appends_user_and_placeholder_witness:
  "trim (input (onChange (lit '' hi '') initial)) \<noteq> [] \<and>
   \<not> isLoading (onChange (lit '' hi '') initial) \<and>
   messages (handleSubmit_begin (onChange (lit '' hi '') initial)) =
     [welcomeMsg, userMsg (lit ''hi''), loadingMsg]"
proof -
  have h1: "trim (input (onChange (lit '' hi '') initial)) \<noteq> []"
    by (simp add: onChange_def initial_def trim_def lit_def isWhiteSpace_def)
  have h2: "\<not> isLoading (onChange (lit '' hi '') initial)"
    by (simp add: onChange_def initial_def)
  have t: "trim (lit '' hi '') = lit ''hi''"
    by (simp add: trim_def lit_def isWhiteSpace_def)
  show ?thesis
    using h1 h2 submit_appends_user_and_placeholder [OF h1 h2]
    by (simp add: onChange_def initial_def t userMsg_def loadingMsg_def)
qed

text \<open>
  C4. A submit while the in-flight flag is set, or with an input that is empty once trimmed,
  changes nothing: the messages, the input, the flag and the outstanding requests are the
  same, so no request is issued.
\<close>

theorem submit_rejected_is_noop:
  assumes "isLoading s \<or> trim (input s) = []"
  shows "handleSubmit_begin s = s"
  using assms by (auto simp add: handleSubmit_begin_def)

theorem submit_rejected_is_noop_witness:
  "isLoading (onChange (lit ''again'') (handleSubmit_begin (onChange (lit ''hi'') initial))) \<and>
   handleSubmit_begin (onChange (lit ''again'') (handleSubmit_begin (onChange (lit ''hi'') initial))) =
     onChange (lit ''again'') (handleSubmit_begin (onChange (lit ''hi'') initial))"
proof -
  have h: "isLoading (onChange (lit ''again'') (handleSubmit_begin (onChange (lit ''hi'') initial)))"
    by (simp add: onChange_def initial_def handleSubmit_begin_def Let_def trim_def lit_def isWhiteSpace_def)
  show ?thesis
    using h submit_rejected_is_noop [of "onChange (lit ''again'') (handleSubmit_begin (onChange (lit ''hi'') initial))"]
    by simp
qed

subsection \<open>Settling\<close>

text \<open>
  C1. After an accepted submit, when the request settles with a success status, a body that
  parses and citations that map, the placeholder is gone and one assistant message stands in
  its place. Its content is the answer text when \<^verbatim>\<open>data.answer\<close> is a non-empty string, and
  the fallback text when the answer is the empty string or is missing (and likewise for
  \<^verbatim>\<open>null\<close>, \<^verbatim>\<open>false\<close> and zero; any other value is stored as it is). Its sources are the
  mapped citations, and the conversation is two messages longer than before the submit.
\<close>

theorem success_replaces_placeholder:
  assumes "trim (input s) \<noteq> []" and "\<not> isLoading s"
    and "messages s' = messages (handleSubmit_begin s)"
    and "ok r" and "body r = Some data" and "transformedSources data = Inr ts"
  shows "\<exists>a. get_prop data (lit ''answer'') = Inr a \<and>
           messages (handleSubmit_settle q (Fulfilled r) s') =
             messages s @
               [userMsg (trim (input s)),
                \<lparr>role = Assistant,
                 content =
                   (case a of
                      JStr t \<Rightarrow> if t = [] then JStr fallbackText else JStr t
                    | JUndefined \<Rightarrow> JStr fallbackText
                    | JNull \<Rightarrow> JStr fallbackText
                    | JBool b \<Rightarrow> if b then JBool True else JStr fallbackText
                    | JNum n \<Rightarrow> if n = Finite 0 then JStr fallbackText else JNum n
                    | JArr xs \<Rightarrow> JArr xs
                    | JObj kvs \<Rightarrow> JObj kvs),
                 sources = Some ts, isLoading_m = None, error = None\<rparr>] \<and>
           length (messages (handleSubmit_settle q (Fulfilled r) s')) = length (messages s) + 2"
proof -
  from assms(6) obtain a where a: "get_prop data (lit ''answer'') = Inr a"
    using transformedSources_answer by blast
  have ms: "messages s' = messages s @ [userMsg (trim (input s)), loadingMsg]"
    using assms(1-3) by (simp add: begin_accepted)
  have "tryBlock (Fulfilled r) (messages s') = Inr (butlast (messages s') @ [answerMsg a ts])"
    using assms(4-6) a by (rule tryBlock_success)
  then have "messages (handleSubmit_settle q (Fulfilled r) s') = butlast (messages s') @ [answerMsg a ts]"
    by (simp add: settle_returned)
  with ms have m: "messages (handleSubmit_settle q (Fulfilled r) s') =
      messages s @ [userMsg (trim (input s)), answerMsg a ts]"
    by (simp add: butlast_append)
  have "content (answerMsg a ts) =
      (case a of
         JStr t \<Rightarrow> if t = [] then JStr fallbackText else JStr t
       | JUndefined \<Rightarrow> JStr fallbackText
       | JNull \<Rightarrow> JStr fallbackText
       | JBool b \<Rightarrow> if b then JBool True else JStr fallbackText
       | JNum n \<Rightarrow> if n = Finite 0 then JStr fallbackText else JNum n
       | JArr xs \<Rightarrow> JArr xs
       | JObj kvs \<Rightarrow> JObj kvs)"
    by (cases a) (simp_all add: answerMsg_def)
  then have "answerMsg a ts =
      \<lparr>role = Assistant,
       content =
         (case a of
            JStr t \<Rightarrow> if t = [] then JStr fallbackText else JStr t
          | JUndefined \<Rightarrow> JStr fallbackText
          | JNull \<Rightarrow> JStr fallbackText
          | JBool b \<Rightarrow> if b then JBool True else JStr fallbackText
          | JNum n \<Rightarrow> if n = Finite 0 then JStr fallbackText else JNum n
          | JArr xs \<Rightarrow> JArr xs
          | JObj kvs \<Rightarrow> JObj kvs),
       sources = Some ts, isLoading_m = None, error = None\<rparr>"
    by (simp add: answerMsg_def)
  with a m show ?thesis by simp
qed

theorem success_replaces_placeholder_witness:
  "trim (input (onChange (lit ''What is the duty on second-hand clothes?'') initial)) \<noteq> [] \<and>
   \<not> isLoading (onChange (lit ''What is the duty on second-hand clothes?'') initial) \<and>
   ok \<lparr>status = 200, body = Some (JObj
        [(lit ''answer'', JStr (lit ''15% ad valorem'')),
         (lit ''sources'', JArr [JObj
            [(lit ''source_text_preview'', JStr (lit ''Tariff Schedule Part II, Item 12'')),
             (lit ''metadata'', JObj [(lit ''section'', JStr (lit ''12''))])]])])\<rparr> \<and>
   transformedSources (JObj
        [(lit ''answer'', JStr (lit ''15% ad valorem'')),
         (lit ''sources'', JArr [JObj
            [(lit ''source_text_preview'', JStr (lit ''Tariff Schedule Part II, Item 12'')),
             (lit ''metadata'', JObj [(lit ''section'', JStr (lit ''12''))])]])]) =
     Inr [\<lparr>text_s = JStr (lit ''Tariff Schedule Part II, Item 12''),
           metadata = JObj [(lit ''section'', JStr (lit ''12''))]\<rparr>] \<and>
   messages (handleSubmit_settle (lit ''What is the duty on second-hand clothes?'')
      (Fulfilled \<lparr>status = 200, body = Some (JObj
        [(lit ''answer'', JStr (lit ''15% ad valorem'')),
         (lit ''sources'', JArr [JObj
            [(lit ''source_text_preview'', JStr (lit ''Tariff Schedule Part II, Item 12'')),
             (lit ''metadata'', JObj [(lit ''section'', JStr (lit ''12''))])]])])\<rparr>)
      (handleSubmit_begin (onChange (lit ''What is the duty on second-hand clothes?'') initial))) =
     [welcomeMsg,
      userMsg (lit ''What is the duty on second-hand clothes?''),
      \<lparr>role = Assistant, content = JStr (lit ''15% ad valorem''),
       sources = Some [\<lparr>text_s = JStr (lit ''Tariff Schedule Part II, Item 12''),
                        metadata = JObj [(lit ''section'', JStr (lit ''12''))]\<rparr>],
       isLoading_m = None, error = None\<rparr>] \<and>
   transformedSources (JObj [(lit ''answer'', JStr [])]) = Inr [] \<and>
   messages (handleSubmit_settle (lit ''What is the duty on second-hand clothes?'')
      (Fulfilled \<lparr>status = 200, body = Some (JObj [(lit ''answer'', JStr [])])\<rparr>)
      (handleSubmit_begin (onChange (lit ''What is the duty on second-hand clothes?'') initial))) =
     [welcomeMsg,
      userMsg (lit ''What is the duty on second-hand clothes?''),
      \<lparr>role = Assistant, content = JStr fallbackText, sources = Some [],
       isLoading_m = None, error = None\<rparr>] \<and>
   transformedSources (JObj []) = Inr [] \<and>
   messages (handleSubmit_settle (lit ''What is the duty on second-hand clothes?'')
      (Fulfilled \<lparr>status = 200, body = Some (JObj [])\<rparr>)
      (handleSubmit_begin (onChange (lit ''What is the duty on second-hand clothes?'') initial))) =
     [welcomeMsg,
      userMsg (lit ''What is the duty on second-hand clothes?''),
      \<lparr>role = Assistant, content = JStr fallbackText, sources = Some [],
       isLoading_m = None, error = None\<rparr>]"
  (is "?h1 \<and> ?h2 \<and> ?h3 \<and> ?h4 \<and> ?c \<and> ?h5 \<and> ?c5 \<and> ?h6 \<and> ?c6")
proof -
  have t: "trim (lit ''What is the duty on second-hand clothes?'') =
           lit ''What is the duty on second-hand clothes?''"
    by (simp add: trim_def lit_def isWhiteSpace_def)
  have h1: ?h1 by (simp add: onChange_def initial_def t) (simp add: lit_def)
  have h2: ?h2 by (simp add: onChange_def initial_def)
  have h3: ?h3 by (simp add: ok_def)
  have h4: ?h4 by (simp add: transformedSources_def transformSource_def lit_def)
  have a: "get_prop (JObj
        [(lit ''answer'', JStr (lit ''15% ad valorem'')),
         (lit ''sources'', JArr [JObj
            [(lit ''source_text_preview'', JStr (lit ''Tariff Schedule Part II, Item 12'')),
             (lit ''metadata'', JObj [(lit ''section'', JStr (lit ''12''))])]])]) (lit ''answer'') =
        Inr (JStr (lit ''15% ad valorem''))"
    by (simp add: lit_def)
  have nonempty: "lit ''15% ad valorem'' \<noteq> []" by (simp add: lit_def)
  have c: ?c
    using success_replaces_placeholder [OF h1 h2 refl h3 _ h4,
        where q = "lit ''What is the duty on second-hand clothes?''"]
    by (simp add: a nonempty) (simp add: onChange_def initial_def t)
  have ok2: "ok \<lparr>status = 200, body = Some b\<rparr>" for b by (simp add: ok_def)
  have h5: ?h5 by (simp add: transformedSources_def lit_def)
  have a5: "get_prop (JObj [(lit ''answer'', JStr [])]) (lit ''answer'') = Inr (JStr [])"
    by simp
  have c5: ?c5
    using success_replaces_placeholder [OF h1 h2 refl ok2 [of "JObj [(lit ''answer'', JStr [])]"] _ h5,
        where q = "lit ''What is the duty on second-hand clothes?''"]
    by (simp add: a5) (simp add: onChange_def initial_def t)
  have h6: ?h6 by (simp add: transformedSources_def)
  have a6: "get_prop (JObj []) (lit ''answer'') = Inr JUndefined"
    by simp
  have c6: ?c6
    using success_replaces_placeholder [OF h1 h2 refl ok2 [of "JObj []"] _ h6,
        where q = "lit ''What is the duty on second-hand clothes?''"]
    by (simp add: a6) (simp add: onChange_def initial_def t)
  from h1 h2 h3 h4 c h5 c5 h6 c6 show ?thesis by blast
qed

text \<open>
  C2. After an accepted submit, when \<^verbatim>\<open>fetch\<close> rejects, or the status is not a success
  status, or the body does not parse as JSON, the placeholder is gone and one assistant
  message stands in its place, with \<^verbatim>\<open>error\<close> true, the connectivity text and no sources;
  the conversation is two messages longer than before the submit.
\<close>

theorem failure_appends_error_message:
  assumes "trim (input s) \<noteq> []" and "\<not> isLoading s"
    and "messages s' = messages (handleSubmit_begin s)"
    and "outcome = Rejected \<or> (\<exists>r. outcome = Fulfilled r \<and> (\<not> ok r \<or> body r = None))"
  shows "messages (handleSubmit_settle q outcome s') =
           messages s @
             [userMsg (trim (input s)),
              \<lparr>role = Assistant, content = JStr errorText, sources = None,
               isLoading_m = None, error = Some True\<rparr>] \<and>
         length (messages (handleSubmit_settle q outcome s')) = length (messages s) + 2"
proof -
  have ms: "messages s' = messages s @ [userMsg (trim (input s)), loadingMsg]"
    using assms(1-3) by (simp add: begin_accepted)
  from assms(4) obtain e where "tryBlock outcome (messages s') = Inl e"
    using tryBlock_failure by blast
  then have "messages (handleSubmit_settle q outcome s') = butlast (messages s') @ [errorMsg]"
    by (simp add: settle_thrown)
  with ms show ?thesis by (simp add: butlast_append errorMsg_def)
qed

theorem failure_appends_error_message_witness:
  "trim (input (onChange (lit ''hi'') initial)) \<noteq> [] \<and>
   \<not> isLoading (onChange (lit ''hi'') initial) \<and>
   \<not> ok \<lparr>status = 503, body = None\<rparr> \<and>
   messages (handleSubmit_settle (lit ''hi'') (Fulfilled \<lparr>status = 503, body = None\<rparr>)
      (handleSubmit_begin (onChange (lit ''hi'') initial))) =
     [welcomeMsg, userMsg (lit ''hi''),
      \<lparr>role = Assistant, content = JStr errorText, sources = None, isLoading_m = None,
       error = Some True\<rparr>]"
  (is "?h1 \<and> ?h2 \<and> ?h3 \<and> ?c")
proof -
  have t: "trim (lit ''hi'') = lit ''hi''"
    by (simp add: trim_def lit_def isWhiteSpace_def)
  have h1: ?h1 by (simp add: onChange_def initial_def t) (simp add: lit_def)
  have h2: ?h2 by (simp add: onChange_def initial_def)
  have h3: ?h3 by (simp add: ok_def)
  have h4: "Fulfilled \<lparr>status = 503, body = None\<rparr> = Rejected \<or>
        (\<exists>r. Fulfilled \<lparr>status = 503, body = None\<rparr> = Fulfilled r \<and> (\<not> ok r \<or> body r = None))"
    by simp
  have c: ?c
    using failure_appends_error_message [OF h1 h2 refl h4, of "lit ''hi''"]
    by (simp add: onChange_def initial_def t)
  from h1 h2 h3 c show ?thesis by blast
qed

text \<open>
  C7. Whatever the outcome of the request, and so in the success branch and in every failure
  branch, the in-flight flag is false once the handler has settled.
\<close>

theorem flag_cleared_when_settled:
  "isLoading (handleSubmit_settle q outcome s) = False"
  by (simp add: handleSubmit_settle_def Let_def)

subsection \<open>The placeholder\<close>

text \<open>
  C5. In every reachable state at most one message has \<^verbatim>\<open>isLoading\<close> true, and while a
  request is outstanding (equivalently, while the in-flight flag is set) that message is
  the last one. The proof is by induction over the
  events, so each of them (typing, submit, settling either way) keeps the invariant.
\<close>

theorem one_placeholder_and_last:
  assumes "reachable s"
  shows "length (filter (\<lambda>m. isLoading_m m = Some True) (messages s)) \<le> 1 \<and>
         (outstanding s \<noteq> [] \<or> isLoading s \<longrightarrow>
            messages s \<noteq> [] \<and> isLoading_m (last (messages s)) = Some True)"
proof (cases "outstanding s = []")
  case True
  with placeholder_inv [OF assms] have "\<forall>m\<in>set (messages s). \<not> loading m" by simp
  then have "filter (\<lambda>m. isLoading_m m = Some True) (messages s) = []"
    by (simp add: loading_def filter_empty_conv)
  with True flag_inv [OF assms] show ?thesis by simp
next
  case False
  with placeholder_inv [OF assms] obtain ms where
    ms: "messages s = ms @ [loadingMsg]" "\<forall>m\<in>set ms. \<not> loading m"
    by auto
  from ms(2) have "filter (\<lambda>m. isLoading_m m = Some True) ms = []"
    by (simp add: loading_def filter_empty_conv)
  with ms(1) show ?thesis by (simp add: loadingMsg_def)
qed

theorem one_placeholder_and_last_witness:
  "reachable (handleSubmit_begin (onChange (lit ''hi'') initial)) \<and>
   length (filter (\<lambda>m. isLoading_m m = Some True)
      (messages (handleSubmit_begin (onChange (lit ''hi'') initial)))) \<le> 1 \<and>
   outstanding (handleSubmit_begin (onChange (lit ''hi'') initial)) \<noteq> [] \<and>
   isLoading_m (last (messages (handleSubmit_begin (onChange (lit ''hi'') initial)))) = Some True"
  (is "?h1 \<and> ?c1 \<and> ?h2 \<and> ?c2")
proof -
  have h1: ?h1 by (intro reachable.intros)
  have h2: ?h2
    by (simp add: handleSubmit_begin_def Let_def onChange_def initial_def trim_def lit_def isWhiteSpace_def)
  from one_placeholder_and_last [OF h1] h1 h2 show ?thesis by blast
qed

subsection \<open>Citations\<close>

lemma mapM_transformSource:
  assumes "mapM transformSource items = Inr ts"
  shows "length ts = length items \<and>
         (\<forall>i<length items.
            get_prop (items ! i) (lit ''source_text_preview'') = Inr (text_s (ts ! i)) \<and>
            get_prop (items ! i) (lit ''metadata'') = Inr (metadata (ts ! i)))"
  using assms
proof (induction items arbitrary: ts)
  case Nil
  then show ?case by simp
next
  case (Cons x xs)
  from Cons.prems obtain y ys where
    y: "transformSource x = Inr y" and ys: "mapM transformSource xs = Inr ys" and ts: "ts = y # ys"
    by (auto split: sum.splits)
  from y have x: "get_prop x (lit ''source_text_preview'') = Inr (text_s y)"
      "get_prop x (lit ''metadata'') = Inr (metadata y)"
    by (auto simp add: transformSource_def split: sum.splits)
  from Cons.IH [OF ys] x ts show ?case
    by (auto simp add: nth_Cons split: nat.splits)
qed

lemma mapM_total:
  assumes "\<forall>x\<in>set xs. \<exists>y. f x = Inr y"
  shows "\<exists>ys. mapM f xs = Inr ys"
  using assms by (induction xs) auto

lemma transformSource_total:
  assumes "it \<noteq> JNull" and "it \<noteq> JUndefined"
  shows "\<exists>y. transformSource it = Inr y"
  using assms by (cases it) (simp_all add: transformSource_def)

text \<open>
  C6. When a response with a success status carries \<open>N\<close> citation items (values whose
  properties can be read, so neither \<^verbatim>\<open>null\<close> nor \<^verbatim>\<open>undefined\<close>), the finalized message has
  \<open>N\<close> sources in the order received; the text of each is the item's
  \<^verbatim>\<open>source_text_preview\<close> and its metadata the item's \<^verbatim>\<open>metadata\<close>.
\<close>

theorem sources_mapped_in_order:
  assumes "ok r" and "body r = Some data"
    and "get_prop data (lit ''sources'') = Inr (JArr items)"
    and "\<forall>it\<in>set items. it \<noteq> JNull \<and> it \<noteq> JUndefined"
  shows "\<exists>ts. sources (last (messages (handleSubmit_settle q (Fulfilled r) s))) = Some ts \<and>
           length ts = length items \<and>
           (\<forall>i<length items.
              get_prop (items ! i) (lit ''source_text_preview'') = Inr (text_s (ts ! i)) \<and>
              get_prop (items ! i) (lit ''metadata'') = Inr (metadata (ts ! i)))"
proof -
  from assms(4) have "\<forall>it\<in>set items. \<exists>y. transformSource it = Inr y"
    by (simp add: transformSource_total)
  then obtain ts where m: "mapM transformSource items = Inr ts"
    using mapM_total by blast
  with assms(3) have ts: "transformedSources data = Inr ts"
    by (simp add: transformedSources_def)
  then obtain a where a: "get_prop data (lit ''answer'') = Inr a"
    using transformedSources_answer by blast
  have "tryBlock (Fulfilled r) (messages s) = Inr (butlast (messages s) @ [answerMsg a ts])"
    using assms(1,2) ts a by (rule tryBlock_success)
  then have "messages (handleSubmit_settle q (Fulfilled r) s) = butlast (messages s) @ [answerMsg a ts]"
    by (simp add: settle_returned)
  then have "sources (last (messages (handleSubmit_settle q (Fulfilled r) s))) = Some ts"
    by (simp add: answerMsg_def)
  with mapM_transformSource [OF m] show ?thesis by blast
qed

theorem sources_mapped_in_order_witness:
  "ok \<lparr>status = 200, body = Some (JObj
        [(lit ''answer'', JStr (lit ''15% ad valorem'')),
         (lit ''sources'', JArr
            [JObj [(lit ''source_text_preview'', JStr (lit ''Item 12'')),
                   (lit ''metadata'', JObj [(lit ''section'', JStr (lit ''12''))])],
             JObj [(lit ''source_text_preview'', JStr (lit ''Item 13''))]])])\<rparr> \<and>
   sources (last (messages (handleSubmit_settle (lit ''hi'')
      (Fulfilled \<lparr>status = 200, body = Some (JObj
        [(lit ''answer'', JStr (lit ''15% ad valorem'')),
         (lit ''sources'', JArr
            [JObj [(lit ''source_text_preview'', JStr (lit ''Item 12'')),
                   (lit ''metadata'', JObj [(lit ''section'', JStr (lit ''12''))])],
             JObj [(lit ''source_text_preview'', JStr (lit ''Item 13''))]])])\<rparr>)
      (handleSubmit_begin (onChange (lit ''hi'') initial))))) =
     Some [\<lparr>text_s = JStr (lit ''Item 12''), metadata = JObj [(lit ''section'', JStr (lit ''12''))]\<rparr>,
           \<lparr>text_s = JStr (lit ''Item 13''), metadata = JUndefined\<rparr>]"
  (is "?h1 \<and> sources (last (messages ?S)) = Some ?ts")
proof -
  have h1: ?h1 by (simp add: ok_def)
  have h2: "\<forall>it\<in>set [JObj [(lit ''source_text_preview'', JStr (lit ''Item 12'')),
                     (lit ''metadata'', JObj [(lit ''section'', JStr (lit ''12''))])],
               JObj [(lit ''source_text_preview'', JStr (lit ''Item 13''))]].
      it \<noteq> JNull \<and> it \<noteq> JUndefined"
    by simp
  have h3: "get_prop (JObj
        [(lit ''answer'', JStr (lit ''15% ad valorem'')),
         (lit ''sources'', JArr
            [JObj [(lit ''source_text_preview'', JStr (lit ''Item 12'')),
                   (lit ''metadata'', JObj [(lit ''section'', JStr (lit ''12''))])],
             JObj [(lit ''source_text_preview'', JStr (lit ''Item 13''))]])]) (lit ''sources'') =
     Inr (JArr
            [JObj [(lit ''source_text_preview'', JStr (lit ''Item 12'')),
                   (lit ''metadata'', JObj [(lit ''section'', JStr (lit ''12''))])],
             JObj [(lit ''source_text_preview'', JStr (lit ''Item 13''))]])"
    by (simp add: lit_def)
  from sources_mapped_in_order [OF h1 _ h3 h2, of "lit ''hi''" "handleSubmit_begin (onChange (lit ''hi'') initial)"]
  obtain ts where ts: "sources (last (messages ?S)) = Some ts" "length ts = 2"
    and el: "\<forall>i<2. get_prop ([JObj [(lit ''source_text_preview'', JStr (lit ''Item 12'')),
                   (lit ''metadata'', JObj [(lit ''section'', JStr (lit ''12''))])],
             JObj [(lit ''source_text_preview'', JStr (lit ''Item 13''))]] ! i) (lit ''source_text_preview'') = Inr (text_s (ts ! i)) \<and>
            get_prop ([JObj [(lit ''source_text_preview'', JStr (lit ''Item 12'')),
                   (lit ''metadata'', JObj [(lit ''section'', JStr (lit ''12''))])],
             JObj [(lit ''source_text_preview'', JStr (lit ''Item 13''))]] ! i) (lit ''metadata'') = Inr (metadata (ts ! i))"
    by auto
  from ts(2) obtain x y where xy: "ts = [x, y]"
    by (cases ts; cases "tl ts") auto
  from el [rule_format, of 0] xy
  have x: "x = \<lparr>text_s = JStr (lit ''Item 12''), metadata = JObj [(lit ''section'', JStr (lit ''12''))]\<rparr>"
    by (cases x) (simp add: lit_def)
  from el [rule_format, of 1] xy
  have y: "y = \<lparr>text_s = JStr (lit ''Item 13''), metadata = JUndefined\<rparr>"
    by (cases y) (simp add: lit_def)
  from ts(1) xy x y h1 show ?thesis by simp
qed

subsection \<open>Where the sources field is present\<close>

lemma transformedSources_none:
  assumes "get_prop data (lit ''sources'') = Inr v" and "\<not> truthy v \<or> v = JArr []"
  shows "transformedSources data = Inr []"
  using assms by (auto simp add: transformedSources_def)

lemma settle_success_sources:
  assumes "ok r" and "body r = Some data" and "transformedSources data = Inr ts"
  shows "sources (last (messages (handleSubmit_settle q (Fulfilled r) s))) = Some ts"
proof -
  from assms(3) obtain a where a: "get_prop data (lit ''answer'') = Inr a"
    using transformedSources_answer by blast
  have "tryBlock (Fulfilled r) (messages s) = Inr (butlast (messages s) @ [answerMsg a ts])"
    using assms a by (rule tryBlock_success)
  then have "messages (handleSubmit_settle q (Fulfilled r) s) = butlast (messages s) @ [answerMsg a ts]"
    by (simp add: settle_returned)
  then show ?thesis by (simp add: answerMsg_def)
qed

text \<open>
  C8, as stated, fails: a response without citations still yields an assistant message
  whose \<^verbatim>\<open>sources\<close> field is present, as the empty array, because line 91 always sets it.
  Here the body is \<^verbatim>\<open>{"answer": "No duty applies."}\<close>.
\<close>

theorem sources_present_without_citations:
  "reachable (handleSubmit_settle (lit ''hi'')
      (Fulfilled \<lparr>status = 200, body = Some (JObj [(lit ''answer'', JStr (lit ''No duty applies.''))])\<rparr>)
      (handleSubmit_begin (onChange (lit ''hi'') initial))) \<and>
   get_prop (JObj [(lit ''answer'', JStr (lit ''No duty applies.''))]) (lit ''sources'') = Inr JUndefined \<and>
   role (last (messages (handleSubmit_settle (lit ''hi'')
      (Fulfilled \<lparr>status = 200, body = Some (JObj [(lit ''answer'', JStr (lit ''No duty applies.''))])\<rparr>)
      (handleSubmit_begin (onChange (lit ''hi'') initial))))) = Assistant \<and>
   sources (last (messages (handleSubmit_settle (lit ''hi'')
      (Fulfilled \<lparr>status = 200, body = Some (JObj [(lit ''answer'', JStr (lit ''No duty applies.''))])\<rparr>)
      (handleSubmit_begin (onChange (lit ''hi'') initial))))) = Some []"
proof -
  have b: "handleSubmit_begin (onChange (lit ''hi'') initial) =
      \<lparr>messages = [welcomeMsg, userMsg (lit ''hi''), loadingMsg], input = [], isLoading = True,
       outstanding = [lit ''hi'']\<rparr>"
    by (simp add: handleSubmit_begin_def Let_def onChange_def initial_def trim_def lit_def isWhiteSpace_def)
  have "lit ''hi'' \<in> set (outstanding (handleSubmit_begin (onChange (lit ''hi'') initial)))"
    by (simp add: b)
  then have r: "reachable (handleSubmit_settle (lit ''hi'')
      (Fulfilled \<lparr>status = 200, body = Some (JObj [(lit ''answer'', JStr (lit ''No duty applies.''))])\<rparr>)
      (handleSubmit_begin (onChange (lit ''hi'') initial)))"
    by (intro reachable.intros)
  have g: "get_prop (JObj [(lit ''answer'', JStr (lit ''No duty applies.''))]) (lit ''sources'') = Inr JUndefined"
    by (simp add: lit_def)
  have m: "messages (handleSubmit_settle (lit ''hi'')
      (Fulfilled \<lparr>status = 200, body = Some (JObj [(lit ''answer'', JStr (lit ''No duty applies.''))])\<rparr>)
      (handleSubmit_begin (onChange (lit ''hi'') initial))) =
     [welcomeMsg, userMsg (lit ''hi''),
      \<lparr>role = Assistant, content = JStr (lit ''No duty applies.''), sources = Some [],
       isLoading_m = None, error = None\<rparr>]"
    by (subst b) (simp add: handleSubmit_settle_def tryBlock_def ok_def transformedSources_def answerMsg_def lit_def)
  from r g show ?thesis by (simp add: m)
qed

text \<open>
  C8, amended. In every reachable state the \<^verbatim>\<open>sources\<close> field is absent exactly on the
  user messages, the placeholder, the error messages and the welcome message. Every
  assistant message finalized from a successful response carries it: it holds the mapped
  citations, and is the empty sequence when the response returned none (\<^verbatim>\<open>data.sources\<close>
  falsy, or the empty array).
\<close>

theorem sources_field_presence:
  assumes "reachable s"
  shows "(m \<in> set (messages s) \<longrightarrow>
            (sources m = None \<longleftrightarrow>
               role m = User \<or> isLoading_m m = Some True \<or> error m = Some True \<or> m = welcomeMsg)) \<and>
         (ok r \<and> body r = Some data \<and> transformedSources data = Inr ts \<longrightarrow>
            sources (last (messages (handleSubmit_settle q (Fulfilled r) s))) = Some ts) \<and>
         (ok r \<and> body r = Some data \<and> get_prop data (lit ''sources'') = Inr v \<and>
            (\<not> truthy v \<or> v = JArr []) \<longrightarrow>
            sources (last (messages (handleSubmit_settle q (Fulfilled r) s))) = Some [])"
proof (intro conjI impI)
  assume "m \<in> set (messages s)"
  from shape_inv [OF assms this]
  show "sources m = None \<longleftrightarrow>
          role m = User \<or> isLoading_m m = Some True \<or> error m = Some True \<or> m = welcomeMsg"
    by (auto simp add: welcomeMsg_def userMsg_def loadingMsg_def errorMsg_def answerMsg_def)
next
  assume "ok r \<and> body r = Some data \<and> transformedSources data = Inr ts"
  then show "sources (last (messages (handleSubmit_settle q (Fulfilled r) s))) = Some ts"
    by (simp add: settle_success_sources)
next
  assume h: "ok r \<and> body r = Some data \<and> get_prop data (lit ''sources'') = Inr v \<and>
      (\<not> truthy v \<or> v = JArr [])"
  then have "transformedSources data = Inr []"
    using transformedSources_none by blast
  with h show "sources (last (messages (handleSubmit_settle q (Fulfilled r) s))) = Some []"
    by (simp add: settle_success_sources)
qed

theorem sources_field_presence_witness:
  "reachable (handleSubmit_begin (onChange (lit ''hi'') initial)) \<and>
   userMsg (lit ''hi'') \<in> set (messages (handleSubmit_begin (onChange (lit ''hi'') initial))) \<and>
   role (userMsg (lit ''hi'')) = User \<and>
   sources (userMsg (lit ''hi'')) = None \<and>
   ok \<lparr>status = 200, body = Some (JObj [(lit ''answer'', JStr (lit ''Exempt.'')), (lit ''sources'', JArr [])])\<rparr> \<and>
   get_prop (JObj [(lit ''answer'', JStr (lit ''Exempt.'')), (lit ''sources'', JArr [])]) (lit ''sources'') =
     Inr (JArr []) \<and>
   transformedSources (JObj [(lit ''answer'', JStr (lit ''Exempt.'')), (lit ''sources'', JArr [])]) = Inr [] \<and>
   sources (last (messages (handleSubmit_settle (lit ''hi'')
      (Fulfilled \<lparr>status = 200,
         body = Some (JObj [(lit ''answer'', JStr (lit ''Exempt.'')), (lit ''sources'', JArr [])])\<rparr>)
      (handleSubmit_begin (onChange (lit ''hi'') initial))))) = Some []"
  (is "?h1 \<and> ?h2 \<and> ?h3 \<and> ?c1 \<and> ?h4 \<and> ?h5 \<and> ?h6 \<and> ?c2")
proof -
  have h1: ?h1 by (intro reachable.intros)
  have h2: ?h2
    by (simp add: handleSubmit_begin_def Let_def onChange_def initial_def trim_def lit_def isWhiteSpace_def)
  have h3: ?h3 by (simp add: userMsg_def)
  have h4: ?h4 by (simp add: ok_def)
  have h5: ?h5 by (simp add: lit_def)
  have h6: ?h6 by (simp add: transformedSources_def lit_def)
  note th = sources_field_presence [OF h1,
      of "userMsg (lit ''hi'')"
         "\<lparr>status = 200, body = Some (JObj [(lit ''answer'', JStr (lit ''Exempt.'')), (lit ''sources'', JArr [])])\<rparr>"
         "JObj [(lit ''answer'', JStr (lit ''Exempt.'')), (lit ''sources'', JArr [])]"
         "[]" "lit ''hi''" "JArr []"]
  from th h2 h3 have c1: ?c1 by blast
  from th h4 h5 have c2: ?c2 by simp
  from h1 h2 h3 c1 h4 h5 h6 c2 show ?thesis by blast
qed

subsection \<open>Failure touches one exchange only\<close>

text \<open>
  C9. When the request of a reachable state settles by a throw in the \<^verbatim>\<open>try\<close> block, whatever
  threw, the messages before the placeholder stay as they were, none altered and none
  removed, and the placeholder, which is the last message, gives way to the error message.
\<close>

theorem failure_is_local:
  assumes "reachable s" and "q \<in> set (outstanding s)"
    and "tryBlock outcome (messages s) = Inl e"
  shows "\<exists>ms. messages s = ms @ [loadingMsg] \<and>
              messages (handleSubmit_settle q outcome s) = ms @ [errorMsg]"
proof -
  from assms(2) have "outstanding s \<noteq> []" by auto
  with placeholder_inv [OF assms(1)] obtain ms where ms: "messages s = ms @ [loadingMsg]"
    by auto
  from assms(3) have "messages (handleSubmit_settle q outcome s) = butlast (messages s) @ [errorMsg]"
    by (simp add: settle_thrown)
  with ms show ?thesis by simp
qed

theorem failure_is_local_witness:
  "reachable (handleSubmit_begin (onChange (lit ''hi'') initial)) \<and>
   lit ''hi'' \<in> set (outstanding (handleSubmit_begin (onChange (lit ''hi'') initial))) \<and>
   tryBlock Rejected (messages (handleSubmit_begin (onChange (lit ''hi'') initial))) = Inl FetchRejected \<and>
   messages (handleSubmit_begin (onChange (lit ''hi'') initial)) =
     [welcomeMsg, userMsg (lit ''hi'')] @ [loadingMsg] \<and>
   messages (handleSubmit_settle (lit ''hi'') Rejected (handleSubmit_begin (onChange (lit ''hi'') initial))) =
     [welcomeMsg, userMsg (lit ''hi'')] @ [errorMsg]"
  (is "?h1 \<and> ?h2 \<and> ?h3 \<and> ?c1 \<and> ?c2")
proof -
  have b: "handleSubmit_begin (onChange (lit ''hi'') initial) =
      \<lparr>messages = [welcomeMsg, userMsg (lit ''hi''), loadingMsg], input = [], isLoading = True,
       outstanding = [lit ''hi'']\<rparr>"
    by (simp add: handleSubmit_begin_def Let_def onChange_def initial_def trim_def lit_def isWhiteSpace_def)
  have h1: ?h1 by (intro reachable.intros)
  have h2: ?h2 by (simp add: b)
  have h3: ?h3 by (simp add: tryBlock_def)
  have c1: ?c1 by (simp add: b)
  from failure_is_local [OF h1 h2 h3] obtain ms where
    ms: "messages (handleSubmit_begin (onChange (lit ''hi'') initial)) = ms @ [loadingMsg]"
    and st: "messages (handleSubmit_settle (lit ''hi'') Rejected
                (handleSubmit_begin (onChange (lit ''hi'') initial))) = ms @ [errorMsg]"
    by blast
  from ms c1 have "ms = [welcomeMsg, userMsg (lit ''hi'')]" by simp
  with st have c2: ?c2 by simp
  from h1 h2 h3 c1 c2 show ?thesis by blast
qed

subsection \<open>User messages\<close>

text \<open>
  C10. In every reachable state the content of every user message is a non-empty string.
\<close>

theorem user_content_nonempty:
  assumes "reachable s" and "m \<in> set (messages s)" and "role m = User"
  shows "\<exists>t. content m = JStr t \<and> t \<noteq> []"
  using shape_inv [OF assms(1,2)] assms(3)
  by (auto simp add: welcomeMsg_def userMsg_def loadingMsg_def errorMsg_def answerMsg_def)

theorem user_content_nonempty_witness:
  "reachable (handleSubmit_begin (onChange (lit '' hi '') initial)) \<and>
   userMsg (lit ''hi'') \<in> set (messages (handleSubmit_begin (onChange (lit '' hi '') initial))) \<and>
   role (userMsg (lit ''hi'')) = User \<and>
   content (userMsg (lit ''hi'')) = JStr (lit ''hi'') \<and> lit ''hi'' \<noteq> []"
  (is "?h1 \<and> ?h2 \<and> ?h3 \<and> ?c")
proof -
  have h1: ?h1 by (intro reachable.intros)
  have h2: ?h2
    by (simp add: handleSubmit_begin_def Let_def onChange_def initial_def trim_def lit_def isWhiteSpace_def)
  have h3: ?h3 by (simp add: userMsg_def)
  from user_content_nonempty [OF h1 h2 h3] have ?c
    by (simp add: userMsg_def)
  with h1 h2 h3 show ?thesis by blast
qed

end
